theory Spec2Isabelle
  imports Main "HOL-Library.Word"
begin

unbundle bit_operations_syntax

section \<open>Cells, errors and data frames\<close>

text \<open>
  The transform step (\<^verbatim>\<open>final_project_live/transform/main.py\<close>) threads one pandas
  DataFrame through nine functions. A cell of the frame is missing (\<open>NaN\<close>), a text
  (\<open>Str\<close>) or a whole number (\<open>Num\<close>, the token counts). Characters are the code points
  below 256. The text columns of a scraped file (\<^verbatim>\<open>url\<close>, \<^verbatim>\<open>title\<close>, \<^verbatim>\<open>body\<close>) hold \<open>Str\<close>
  or \<open>NaN\<close>; where a string operation meets a \<open>Num\<close> the model raises what Python raises
  for a number that is not zero.

  A frame has its column labels in order, the name of its index, and its rows in order;
  every row carries its index label and its cells by column label (the cells of labels
  that are not columns of the frame mean nothing).
\<close>

datatype cell = NaN | Str string | Num int

datatype error = KeyError | AttributeError | TypeError | ValueError

type_synonym row = "string \<Rightarrow> cell"

record dataframe =
  columns :: "string list"
  index_name :: "string option"
  rows :: "(cell \<times> row) list"

text \<open>An exception ends the run: a stage is only entered with the frame of the stage before.\<close>

definition and_then :: "error + 'a \<Rightarrow> ('a \<Rightarrow> error + 'b) \<Rightarrow> error + 'b" where
  "and_then m f = (case m of Inl e \<Rightarrow> Inl e | Inr x \<Rightarrow> f x)"

text \<open>\<^verbatim>\<open>Series.apply(f)\<close> on the values in order: the first exception is the one raised.\<close>

fun traverse :: "('a \<Rightarrow> error + 'b) \<Rightarrow> 'a list \<Rightarrow> error + 'b list" where
  "traverse f [] = Inr []"
| "traverse f (x # xs) =
     (case f x of
        Inl e \<Rightarrow> Inl e
      | Inr y \<Rightarrow> (case traverse f xs of Inl e \<Rightarrow> Inl e | Inr ys \<Rightarrow> Inr (y # ys)))"

definition isna :: "cell \<Rightarrow> bool" where
  "isna c = (c = NaN)"

definition is_text :: "cell \<Rightarrow> bool" where
  "is_text c = (case c of Str s \<Rightarrow> True | _ \<Rightarrow> False)"

definition add_column :: "string \<Rightarrow> string list \<Rightarrow> string list" where
  "add_column c cols = (if c \<in> set cols then cols else cols @ [c])"

text \<open>\<^verbatim>\<open>df[c] = values\<close> with one value per row, by position.\<close>

definition set_column :: "string \<Rightarrow> cell list \<Rightarrow> dataframe \<Rightarrow> dataframe" where
  "set_column c vs df =
     df\<lparr>columns := add_column c (columns df),
        rows := map (\<lambda>((l, r), v). (l, r(c := v))) (zip (rows df) vs)\<rparr>"

text \<open>\<^verbatim>\<open>df.set_index(c)\<close>: the column leaves the columns and labels the rows.\<close>

definition set_index :: "string \<Rightarrow> dataframe \<Rightarrow> dataframe" where
  "set_index c df =
     df\<lparr>columns := removeAll c (columns df),
        index_name := Some c,
        rows := map (\<lambda>(l, r). (r c, r)) (rows df)\<rparr>"

text \<open>\<^verbatim>\<open>df.dropna()\<close>: a row stays when none of its cells, in any column, is missing.\<close>

definition complete :: "string list \<Rightarrow> cell \<times> row \<Rightarrow> bool" where
  "complete cols lr = list_all (\<lambda>c. \<not> isna (snd lr c)) cols"

definition dropna :: "dataframe \<Rightarrow> dataframe" where
  "dropna df = df\<lparr>rows := filter (complete (columns df)) (rows df)\<rparr>"

text \<open>
  \<^verbatim>\<open>df[c] = series\<close>: pandas aligns the series with the frame by index label. With the
  same labels in the same order the values are taken by position; otherwise a series
  with a repeated label cannot be reindexed (ValueError), and a label the series lacks
  gets \<open>NaN\<close>.
\<close>

definition setitem_series :: "string \<Rightarrow> (cell \<times> cell) list \<Rightarrow> dataframe \<Rightarrow> error + dataframe" where
  "setitem_series c ser df =
     (if map fst ser = map fst (rows df) then Inr (set_column c (map snd ser) df)
      else if \<not> distinct (map fst ser) then Inl ValueError
      else Inr (set_column c
             (map (\<lambda>(l, r). case map_of ser l of Some v \<Rightarrow> v | None \<Rightarrow> NaN) (rows df)) df))"

section \<open>Python strings\<close>

text \<open>
  \<^verbatim>\<open>s.split(sep)\<close> for a separator of one character: a separator starts a new word in
  front of the words of the rest, any other character joins the first of them. The
  result is never empty, so the second case below does not arise.
\<close>

fun split_on :: "char \<Rightarrow> string \<Rightarrow> string list" where
  "split_on sep [] = [[]]"
| "split_on sep (c # cs) =
     (case split_on sep cs of
        w # ws \<Rightarrow> (if c = sep then [] # w # ws else (c # w) # ws)
      | [] \<Rightarrow> [])"

text \<open>\<^verbatim>\<open>sep.join(words)\<close>.\<close>

fun join :: "string \<Rightarrow> string list \<Rightarrow> string" where
  "join sep [] = []"
| "join sep [w] = w"
| "join sep (w # v # ws) = w @ sep @ join sep (v # ws)"

text \<open>\<^verbatim>\<open>s.replace(old, new)\<close> for \<open>old\<close> and \<open>new\<close> of one character.\<close>

definition replace :: "char \<Rightarrow> char \<Rightarrow> string \<Rightarrow> string" where
  "replace old new s = map (\<lambda>c. if c = old then new else c) s"

text \<open>\<^verbatim>\<open>str.isalpha\<close> and \<^verbatim>\<open>str.lower\<close> on the code points below 256.\<close>

definition isalpha_char :: "char \<Rightarrow> bool" where
  "isalpha_char c =
     (let n = (of_char c :: nat)
      in (65 \<le> n \<and> n \<le> 90) \<or> (97 \<le> n \<and> n \<le> 122) \<or> n = 170 \<or> n = 181 \<or> n = 186
         \<or> (192 \<le> n \<and> n \<le> 214) \<or> (216 \<le> n \<and> n \<le> 246) \<or> 248 \<le> n)"

definition isalpha :: "string \<Rightarrow> bool" where
  "isalpha s = (s \<noteq> [] \<and> list_all isalpha_char s)"

definition lower_char :: "char \<Rightarrow> char" where
  "lower_char c =
     (let n = (of_char c :: nat)
      in if (65 \<le> n \<and> n \<le> 90) \<or> (192 \<le> n \<and> n \<le> 214) \<or> (216 \<le> n \<and> n \<le> 222)
         then char_of (n + 32) else c)"

definition lower :: "string \<Rightarrow> string" where
  "lower s = map lower_char s"

section \<open>The libraries the transform step calls\<close>

text \<open>
  \<^verbatim>\<open>urllib.parse.urlparse\<close>, \<^verbatim>\<open>nltk.word_tokenize\<close> and the stop words of
  \<^verbatim>\<open>nltk.corpus.stopwords.words('spanish')\<close> are not code of this repository: the stages
  take them as parameters. \<open>urlparse_netloc u\<close> is \<^verbatim>\<open>urlparse(u).netloc\<close>, or the exception
  \<^verbatim>\<open>urlparse\<close> raises.
\<close>

record library =
  urlparse_netloc :: "string \<Rightarrow> error + string"
  word_tokenize :: "string \<Rightarrow> string list"
  stop_words :: "string set"


section \<open>MD5 and its hexadecimal digest\<close>

text \<open>
  \<^verbatim>\<open>hashlib.md5(data).hexdigest()\<close>, after RFC 1321: the message is padded to whole
  blocks of 64 bytes, every block runs 64 steps on four words of 32 bits, and the
  digest is the sixteen bytes of the four words, low byte first.
\<close>

definition md5_K :: "32 word list" where
  "md5_K =
    [0xd76aa478, 0xe8c7b756, 0x242070db, 0xc1bdceee, 0xf57c0faf, 0x4787c62a, 0xa8304613, 0xfd469501,
     0x698098d8, 0x8b44f7af, 0xffff5bb1, 0x895cd7be, 0x6b901122, 0xfd987193, 0xa679438e, 0x49b40821,
     0xf61e2562, 0xc040b340, 0x265e5a51, 0xe9b6c7aa, 0xd62f105d, 0x02441453, 0xd8a1e681, 0xe7d3fbc8,
     0x21e1cde6, 0xc33707d6, 0xf4d50d87, 0x455a14ed, 0xa9e3e905, 0xfcefa3f8, 0x676f02d9, 0x8d2a4c8a,
     0xfffa3942, 0x8771f681, 0x6d9d6122, 0xfde5380c, 0xa4beea44, 0x4bdecfa9, 0xf6bb4b60, 0xbebfbc70,
     0x289b7ec6, 0xeaa127fa, 0xd4ef3085, 0x04881d05, 0xd9d4d039, 0xe6db99e5, 0x1fa27cf8, 0xc4ac5665,
     0xf4292244, 0x432aff97, 0xab9423a7, 0xfc93a039, 0x655b59c3, 0x8f0ccc92, 0xffeff47d, 0x85845dd1,
     0x6fa87e4f, 0xfe2ce6e0, 0xa3014314, 0x4e0811a1, 0xf7537e82, 0xbd3af235, 0x2ad7d2bb, 0xeb86d391]"

definition md5_s :: "nat list" where
  "md5_s =
    [7, 12, 17, 22, 7, 12, 17, 22, 7, 12, 17, 22, 7, 12, 17, 22,
     5, 9, 14, 20, 5, 9, 14, 20, 5, 9, 14, 20, 5, 9, 14, 20,
     4, 11, 16, 23, 4, 11, 16, 23, 4, 11, 16, 23, 4, 11, 16, 23,
     6, 10, 15, 21, 6, 10, 15, 21, 6, 10, 15, 21, 6, 10, 15, 21]"

type_synonym md5_state = "32 word \<times> 32 word \<times> 32 word \<times> 32 word"

definition rotl :: "nat \<Rightarrow> 32 word \<Rightarrow> 32 word" where
  "rotl n w = push_bit n w OR drop_bit (32 - n) w"

definition md5_F :: "nat \<Rightarrow> 32 word \<Rightarrow> 32 word \<Rightarrow> 32 word \<Rightarrow> 32 word" where
  "md5_F i B C D =
     (if i < 16 then (B AND C) OR (NOT B AND D)
      else if i < 32 then (D AND B) OR (NOT D AND C)
      else if i < 48 then B XOR C XOR D
      else C XOR (B OR NOT D))"

definition md5_g :: "nat \<Rightarrow> nat" where
  "md5_g i =
     (if i < 16 then i
      else if i < 32 then (5 * i + 1) mod 16
      else if i < 48 then (3 * i + 5) mod 16
      else (7 * i) mod 16)"

definition md5_step :: "32 word list \<Rightarrow> md5_state \<Rightarrow> nat \<Rightarrow> md5_state" where
  "md5_step M st i =
     (case st of (A, B, C, D) \<Rightarrow>
        (D, B + rotl (md5_s ! i) (md5_F i B C D + A + md5_K ! i + M ! md5_g i), B, C))"

fun le_word :: "8 word list \<Rightarrow> 32 word" where
  "le_word [] = 0"
| "le_word (b # bs) = ucast b OR push_bit 8 (le_word bs)"

definition le_bytes :: "nat \<Rightarrow> 'a::len word \<Rightarrow> 8 word list" where
  "le_bytes k w = map (\<lambda>i. ucast (drop_bit (8 * i) w)) [0..<k]"

definition chunks :: "nat \<Rightarrow> 'a list \<Rightarrow> 'a list list" where
  "chunks n xs = map (\<lambda>k. take n (drop (n * k) xs)) [0..<length xs div n]"

definition md5_block :: "md5_state \<Rightarrow> 8 word list \<Rightarrow> md5_state" where
  "md5_block st blk =
     (case st of (a0, b0, c0, d0) \<Rightarrow>
        (case foldl (md5_step (map le_word (chunks 4 blk))) st [0..<64] of
           (A, B, C, D) \<Rightarrow> (a0 + A, b0 + B, c0 + C, d0 + D)))"

definition md5_pad :: "8 word list \<Rightarrow> 8 word list" where
  "md5_pad msg =
     msg @ [0x80] @ replicate ((119 - length msg mod 64) mod 64) 0
         @ le_bytes 8 (of_nat (8 * length msg) :: 64 word)"

definition md5_digest :: "8 word list \<Rightarrow> 8 word list" where
  "md5_digest msg =
     (case foldl md5_block (0x67452301, 0xefcdab89, 0x98badcfe, 0x10325476)
             (chunks 64 (md5_pad msg)) of
        (a, b, c, d) \<Rightarrow> concat (map (le_bytes 4) [a, b, c, d]))"

definition hex_digit :: "nat \<Rightarrow> char" where
  "hex_digit n = ''0123456789abcdef'' ! (n mod 16)"

definition hexdigest :: "8 word list \<Rightarrow> string" where
  "hexdigest bs = concat (map (\<lambda>b. [hex_digit (unat b div 16), hex_digit (unat b mod 16)]) bs)"

text \<open>\<^verbatim>\<open>s.encode()\<close>: UTF-8, one byte below 128 and two bytes from 128 to 255.\<close>

definition str_encode :: "string \<Rightarrow> 8 word list" where
  "str_encode s =
     concat (map (\<lambda>c. let n = (of_char c :: nat)
                       in if n < 128 then [of_nat n]
                          else [of_nat (192 + n div 64), of_nat (128 + n mod 64)]) s)"


section \<open>The stages of the transform step\<close>

text \<open>\<^verbatim>\<open>_extract_newspaper_uid\<close>: the file name up to its first underscore.\<close>

definition extract_newspaper_uid :: "string \<Rightarrow> string" where
  "extract_newspaper_uid filename = hd (split_on CHR ''_'' filename)"

text \<open>\<^verbatim>\<open>_add_newspaper_uid_column\<close>: \<^verbatim>\<open>df['newspaper_uid'] = newspaper_uid\<close>.\<close>

definition add_newspaper_uid_column :: "dataframe \<Rightarrow> string \<Rightarrow> dataframe" where
  "add_newspaper_uid_column df newspaper_uid =
     set_column ''newspaper_uid'' (replicate (length (rows df)) (Str newspaper_uid)) df"

text \<open>
  \<^verbatim>\<open>_extract_host\<close>: \<^verbatim>\<open>df['host'] = df['url'].apply(lambda url: urlparse(url).netloc)\<close>.
  There is no \<^verbatim>\<open>try\<close>: what \<^verbatim>\<open>urlparse\<close> raises leaves the function, and a missing url
  (a float) has no \<^verbatim>\<open>decode\<close>.
\<close>

definition host_of :: "library \<Rightarrow> cell \<Rightarrow> error + cell" where
  "host_of lib url =
     (case url of
        Str u \<Rightarrow> (case urlparse_netloc lib u of Inl e \<Rightarrow> Inl e | Inr netloc \<Rightarrow> Inr (Str netloc))
      | _ \<Rightarrow> Inl AttributeError)"

definition extract_host :: "library \<Rightarrow> dataframe \<Rightarrow> error + dataframe" where
  "extract_host lib df =
     (if ''url'' \<notin> set (columns df) then Inl KeyError
      else and_then (traverse (\<lambda>(l, r). host_of lib (r ''url'')) (rows df))
             (\<lambda>hosts. Inr (set_column ''host'' hosts df)))"

text \<open>
  \<^verbatim>\<open>_fill_missing_titles\<close>. For the rows whose title is missing,
  \<^verbatim>\<open>.str.extract(r'(?P<missing_titles>[^/]+)$')\<close> gives the longest end of the url without
  a slash, and \<open>NaN\<close> when that is empty (or the url is no text); the first \<^verbatim>\<open>applymap\<close>
  calls \<^verbatim>\<open>title.split('-')\<close>, which a \<open>NaN\<close> does not have; the second joins the words
  with a space. The titles go back to the same rows.

  The accessor \<^verbatim>\<open>.str\<close> exists only on a column of texts. A url column read from a file
  with rows but without any text in it (every cell missing or a number) has a numeric
  type, and \<^verbatim>\<open>df[missing_titles_mask]['url'].str\<close> raises AttributeError, also when no
  title is missing. The url column of a file without rows is a column of texts.
\<close>

definition last_segment :: "string \<Rightarrow> string" where
  "last_segment url = rev (takeWhile (\<lambda>c. c \<noteq> CHR ''/'') (rev url))"

definition str_extract :: "cell \<Rightarrow> cell" where
  "str_extract url =
     (case url of
        Str u \<Rightarrow> (if last_segment u = [] then NaN else Str (last_segment u))
      | _ \<Rightarrow> NaN)"

definition missing_title :: "cell \<Rightarrow> error + cell" where
  "missing_title url =
     and_then (case str_extract url of
                 Str title \<Rightarrow> Inr (split_on CHR ''-'' title)
               | _ \<Rightarrow> Inl AttributeError)
       (\<lambda>title_word_list. Inr (Str (join '' '' title_word_list)))"

definition fill_row :: "cell \<times> row \<Rightarrow> error + cell \<times> row" where
  "fill_row lr =
     (if isna (snd lr ''title'')
      then and_then (missing_title (snd lr ''url''))
             (\<lambda>title. Inr (fst lr, (snd lr)(''title'' := title)))
      else Inr lr)"

definition fill_missing_titles :: "dataframe \<Rightarrow> error + dataframe" where
  "fill_missing_titles df =
     (if ''title'' \<notin> set (columns df) \<or> ''url'' \<notin> set (columns df) then Inl KeyError
      else if rows df \<noteq> [] \<and> list_all (\<lambda>lr. \<not> is_text (snd lr ''url'')) (rows df)
      then Inl AttributeError
      else and_then (traverse fill_row (rows df)) (\<lambda>rs. Inr (df\<lparr>rows := rs\<rparr>)))"

text \<open>
  \<^verbatim>\<open>_generate_uids_for_rows\<close>: \<^verbatim>\<open>hashlib.md5(bytes(row['url'].encode()))\<close> per row, its
  \<^verbatim>\<open>hexdigest()\<close>, stored as column \<^verbatim>\<open>uid\<close>, which \<^verbatim>\<open>set_index\<close> makes the index.

  On a frame without rows \<^verbatim>\<open>DataFrame.apply(f, axis=1)\<close> calls \<open>f\<close> on no row: it
  tries \<open>f\<close> on an empty probe row, and when that raises (as \<^verbatim>\<open>row['url'].encode()\<close> and
  then \<^verbatim>\<open>hexdigest\<close> do) it returns a copy of the frame. So \<^verbatim>\<open>uids\<close> is a frame, and
  \<^verbatim>\<open>df['uid'] = uids\<close> raises ValueError unless that frame has exactly one column.
\<close>

definition uid_of :: "cell \<Rightarrow> error + cell" where
  "uid_of url =
     (case url of
        Str u \<Rightarrow> Inr (Str (hexdigest (md5_digest (str_encode u))))
      | _ \<Rightarrow> Inl AttributeError)"

definition generate_uids_for_rows :: "dataframe \<Rightarrow> error + dataframe" where
  "generate_uids_for_rows df =
     (if rows df = [] then
        (if length (columns df) = 1 then Inr (set_index ''uid'' (set_column ''uid'' [] df))
         else Inl ValueError)
      else if ''url'' \<notin> set (columns df) then Inl KeyError
      else and_then (traverse (\<lambda>(l, r). uid_of (r ''url'')) (rows df))
             (\<lambda>uids. Inr (set_index ''uid'' (set_column ''uid'' uids df))))"

text \<open>
  \<^verbatim>\<open>_remove_new_lines_from_body\<close>: \<^verbatim>\<open>list(body)\<close>, \<^verbatim>\<open>letter.replace('\n', ' ')\<close> on
  every letter, \<^verbatim>\<open>''.join(letters)\<close>. A missing body is a float, which \<^verbatim>\<open>list\<close> cannot
  iterate. On a frame without rows the outcome depends on the pandas version (pandas 1
  raises ValueError when the frame has columns, pandas 2 returns the frame when it has a
  body column); the model follows pandas 1, and \<open>main\<close> reaches this stage only with rows.
\<close>

definition strip_new_lines :: "cell \<Rightarrow> error + cell" where
  "strip_new_lines body =
     (case body of
        Str s \<Rightarrow> Inr (Str (join [] (map (replace (CHR 0x0A) CHR '' '') (map (\<lambda>letter. [letter]) s))))
      | _ \<Rightarrow> Inl TypeError)"

definition remove_new_lines_from_body :: "dataframe \<Rightarrow> error + dataframe" where
  "remove_new_lines_from_body df =
     (if rows df = [] then
        (if columns df = [] then Inr (set_column ''body'' [] df) else Inl ValueError)
      else if ''body'' \<notin> set (columns df) then Inl KeyError
      else and_then (traverse (\<lambda>(l, r). strip_new_lines (r ''body'')) (rows df))
             (\<lambda>stripped_body. Inr (set_column ''body'' stripped_body df)))"

text \<open>
  \<^verbatim>\<open>_tokenize_column\<close>. The chain of lambdas on one text: tokenize, keep the alphabetic
  tokens, lower them, drop the stop words, count.
\<close>

definition count_tokens :: "library \<Rightarrow> string \<Rightarrow> int" where
  "count_tokens lib text =
     (let tokens = word_tokenize lib text;
          alpha_tokens = filter isalpha tokens;
          word_list = map lower alpha_tokens;
          valid_word_list = filter (\<lambda>word. word \<notin> stop_words lib) word_list
      in int (length valid_word_list))"

text \<open>
  The chain starts with \<^verbatim>\<open>df.dropna()\<close>: only the rows with no missing cell in any column
  are counted, and the result is a series labelled by their index. When \<^verbatim>\<open>dropna\<close> leaves
  no row, \<^verbatim>\<open>apply(..., axis=1)\<close> returns the empty frame (the probe raises), and the next
  \<^verbatim>\<open>apply\<close>, whose lambda returns a list on the probe, fails to build a series over the
  columns (ValueError).
\<close>

definition tokenize_column :: "library \<Rightarrow> dataframe \<Rightarrow> string \<Rightarrow> error + (cell \<times> cell) list" where
  "tokenize_column lib df column_name =
     (let kept = rows (dropna df)
      in if kept = [] then (if columns df = [] then Inr [] else Inl ValueError)
         else if column_name \<notin> set (columns df) then Inl KeyError
         else traverse (\<lambda>(l, r). case r column_name of
                                    Str text \<Rightarrow> Inr (l, Num (count_tokens lib text))
                                  | _ \<Rightarrow> Inl TypeError) kept)"

definition tokenize_title :: "library \<Rightarrow> dataframe \<Rightarrow> error + dataframe" where
  "tokenize_title lib df =
     and_then (tokenize_column lib df ''title'') (\<lambda>ser. setitem_series ''n_tokens_title'' ser df)"

definition tokenize_body :: "library \<Rightarrow> dataframe \<Rightarrow> error + dataframe" where
  "tokenize_body lib df =
     and_then (tokenize_column lib df ''body'') (\<lambda>ser. setitem_series ''n_tokens_body'' ser df)"

text \<open>
  \<^verbatim>\<open>_remove_duplicate_entries\<close>: \<^verbatim>\<open>drop_duplicates(subset=[column_name], keep='first')\<close>,
  a scan in row order that remembers the values seen (two missing values count as equal).
\<close>

fun drop_duplicates :: "('a \<Rightarrow> 'k) \<Rightarrow> 'k list \<Rightarrow> 'a list \<Rightarrow> 'a list" where
  "drop_duplicates key seen [] = []"
| "drop_duplicates key seen (x # xs) =
     (if key x \<in> set seen then drop_duplicates key seen xs
      else x # drop_duplicates key (key x # seen) xs)"

definition remove_duplicate_entries :: "dataframe \<Rightarrow> string \<Rightarrow> error + dataframe" where
  "remove_duplicate_entries df column_name =
     (if column_name \<notin> set (columns df) then Inl KeyError
      else Inr (df\<lparr>rows := drop_duplicates (\<lambda>lr. snd lr column_name) [] (rows df)\<rparr>))"

text \<open>\<^verbatim>\<open>_drop_rows_with_missing_values\<close>: \<^verbatim>\<open>df.dropna()\<close>.\<close>

definition drop_rows_with_missing_values :: "dataframe \<Rightarrow> dataframe" where
  "drop_rows_with_missing_values df = dropna df"

text \<open>
  \<^verbatim>\<open>main\<close>, between \<^verbatim>\<open>_read_data\<close>, whose frame is the argument \<open>df0\<close>, and \<^verbatim>\<open>_save_data\<close>,
  which writes the frame returned.
\<close>

definition main :: "library \<Rightarrow> string \<Rightarrow> dataframe \<Rightarrow> error + dataframe" where
  "main lib filename df0 =
     (let newspaper_uid = extract_newspaper_uid filename;
          df1 = add_newspaper_uid_column df0 newspaper_uid
      in case extract_host lib df1 of Inl e \<Rightarrow> Inl e | Inr df2 \<Rightarrow>
         (case fill_missing_titles df2 of Inl e \<Rightarrow> Inl e | Inr df3 \<Rightarrow>
         (case generate_uids_for_rows df3 of Inl e \<Rightarrow> Inl e | Inr df4 \<Rightarrow>
         (case remove_new_lines_from_body df4 of Inl e \<Rightarrow> Inl e | Inr df5 \<Rightarrow>
         (case tokenize_title lib df5 of Inl e \<Rightarrow> Inl e | Inr df6 \<Rightarrow>
         (case tokenize_body lib df6 of Inl e \<Rightarrow> Inl e | Inr df7 \<Rightarrow>
         (case remove_duplicate_entries df7 ''title'' of Inl e \<Rightarrow> Inl e | Inr df8 \<Rightarrow>
          Inr (drop_rows_with_missing_values df8))))))))"

section \<open>A library for the examples\<close>

text \<open>
  The closed examples below need the library functions at a few inputs.
  \<open>urlsplit_netloc\<close> follows \<^verbatim>\<open>urllib.parse.urlsplit\<close>: leading control characters and
  spaces are stripped, tab, CR and LF removed, a scheme (a letter, then letters, digits,
  \<^verbatim>\<open>+-.\<close>, before the first colon) is cut off, and the network location is what follows
  \<^verbatim>\<open>//\<close> up to the first of \<^verbatim>\<open>/?#\<close>; one bracket without the other raises ValueError
  ("Invalid IPv6 URL"). The check of what stands between two brackets is left out.
  \<open>whitespace_tokenize\<close> gives the words between spaces, which is what
  \<^verbatim>\<open>nltk.word_tokenize\<close> returns on words separated by single spaces without punctuation.
\<close>

definition scheme_char :: "char \<Rightarrow> bool" where
  "scheme_char c =
     (c \<in> set ''abcdefghijklmnopqrstuvwxyzABCDEFGHIJKLMNOPQRSTUVWXYZ0123456789+-.'')"

definition ascii_alpha :: "char \<Rightarrow> bool" where
  "ascii_alpha c = (c \<in> set ''abcdefghijklmnopqrstuvwxyzABCDEFGHIJKLMNOPQRSTUVWXYZ'')"

definition strip_scheme :: "string \<Rightarrow> string" where
  "strip_scheme url =
     (let pre = takeWhile (\<lambda>c. c \<noteq> CHR '':'') url
      in if CHR '':'' \<in> set url \<and> pre \<noteq> [] \<and> ascii_alpha (hd pre) \<and> list_all scheme_char pre
         then drop (length pre + 1) url else url)"

definition urlsplit_netloc :: "string \<Rightarrow> error + string" where
  "urlsplit_netloc url0 =
     (let url1 = dropWhile (\<lambda>c. (of_char c :: nat) \<le> 32) url0;
          url2 = filter (\<lambda>c. c \<notin> {CHR 0x09, CHR 0x0D, CHR 0x0A}) url1;
          url3 = strip_scheme url2
      in if take 2 url3 = ''//'' then
           (let netloc = takeWhile (\<lambda>c. c \<notin> {CHR ''/'', CHR ''?'', CHR ''#''}) (drop 2 url3)
            in if (CHR ''['' \<in> set netloc) \<noteq> (CHR '']'' \<in> set netloc) then Inl ValueError
               else Inr netloc)
         else Inr [])"

definition whitespace_tokenize :: "string \<Rightarrow> string list" where
  "whitespace_tokenize text = filter (\<lambda>w. w \<noteq> []) (split_on CHR '' '' text)"

definition example_library :: library where
  "example_library =
     \<lparr>urlparse_netloc = urlsplit_netloc,
      word_tokenize = whitespace_tokenize,
      stop_words = {''de'', ''la'', ''el'', ''en'', ''y''}\<rparr>"

text \<open>\<^verbatim>\<open>pd.read_csv\<close> labels the rows 0, 1, 2, ...\<close>

definition read_frame :: "string list \<Rightarrow> row list \<Rightarrow> dataframe" where
  "read_frame cols rs =
     \<lparr>columns = cols, index_name = None,
      rows = zip (map (\<lambda>i. Num (int i)) [0..<length rs]) rs\<rparr>"

definition text_row :: "cell \<Rightarrow> cell \<Rightarrow> cell \<Rightarrow> row" where
  "text_row b t u = (\<lambda>c. NaN)(''body'' := b, ''title'' := t, ''url'' := u)"


section \<open>Example frames\<close>

definition abac_frame :: dataframe where
  "abac_frame =
     read_frame [''body'', ''title'', ''url'']
       [text_row (Str ''uno'') (Str ''A'') (Str ''https://n.test/1''),
        text_row (Str ''dos'') (Str ''B'') (Str ''https://n.test/2''),
        text_row (Str ''tres'') (Str ''A'') (Str ''https://n.test/3''),
        text_row (Str ''cuatro'') (Str ''C'') (Str ''https://n.test/4'')]"

definition fox_library :: library where
  "fox_library =
     \<lparr>urlparse_netloc = urlsplit_netloc,
      word_tokenize =
        (\<lambda>text. if text = ''The Quick Fox! 2 Jumps''
                then [''The'', ''Quick'', ''Fox'', ''!'', ''2'', ''Jumps'']
                else whitespace_tokenize text),
      stop_words = {''the''}\<rparr>"

definition trailing_slash_frame :: dataframe where
  "trailing_slash_frame =
     read_frame [''body'', ''title'', ''url'']
       [text_row (Str ''texto'') NaN (Str ''https://site.test/news/'')]"

definition sample_frame :: dataframe where
  "sample_frame =
     read_frame [''body'', ''title'', ''url'']
       [text_row (Str ''la nota'') NaN (Str ''https://n.test/a/hello-world''),
        text_row (Str ''otra nota'') (Str ''Story'') (Str ''no-host/story'')]"

definition bad_bracket_frame :: dataframe where
  "bad_bracket_frame =
     read_frame [''body'', ''title'', ''url'']
       [text_row (Str ''la nota'') (Str ''Uno'') (Str ''https://n.test/a/uno''),
        text_row (Str ''otra nota'') (Str ''Dos'') (Str ''http://[bad'')]"

definition empty_frame :: dataframe where
  "empty_frame = read_frame [''body'', ''title'', ''url''] []"

text \<open>The nine stages of the orchestrator, in the order of the specification.\<close>

definition nine_stages :: "library \<Rightarrow> string \<Rightarrow> (dataframe \<Rightarrow> error + dataframe) list" where
  "nine_stages lib filename =
     [\<lambda>df. Inr (add_newspaper_uid_column df (extract_newspaper_uid filename)),
      extract_host lib,
      fill_missing_titles,
      generate_uids_for_rows,
      remove_new_lines_from_body,
      tokenize_title lib,
      tokenize_body lib,
      \<lambda>df. remove_duplicate_entries df ''title'',
      \<lambda>df. Inr (drop_rows_with_missing_values df)]"

(*PROPERTIES*)

section \<open>Auxiliary facts\<close>

lemma traverse_Inr_iff:
  "traverse f xs = Inr ys \<longleftrightarrow> list_all2 (\<lambda>x y. f x = Inr y) xs ys"
proof (induction xs arbitrary: ys)
  case Nil
  show ?case by auto
next
  case (Cons x xs)
  show ?case
  proof (cases "f x")
    case (Inl e)
    then show ?thesis by (auto simp: list_all2_Cons1)
  next
    case fx: (Inr y)
    show ?thesis
    proof (cases "traverse f xs")
      case (Inl e)
      with fx Cons.IH show ?thesis by (auto simp: list_all2_Cons1)
    next
      case (Inr zs)
      with fx Cons.IH [of zs] Cons.IH show ?thesis
        by (auto simp: list_all2_Cons1)
    qed
  qed
qed

lemma traverse_Inl_iff:
  "(\<exists>e. traverse f xs = Inl e) \<longleftrightarrow> (\<exists>x\<in>set xs. \<exists>e. f x = Inl e)"
  by (induction xs) (auto split: sum.splits)

lemma traverse_map:
  "(\<And>x. x \<in> set xs \<Longrightarrow> f x = Inr (g x)) \<Longrightarrow> traverse f xs = Inr (map g xs)"
  by (induction xs) auto

lemma split_on_not_Nil: "split_on sep s \<noteq> []"
  by (induction s) (auto split: list.splits)

lemma join_Cons: "ws \<noteq> [] \<Longrightarrow> join sep (w # ws) = w @ sep @ join sep ws"
  by (cases ws) auto

lemma join_split_on: "join [new] (split_on old s) = replace old new s"
proof (induction s)
  case Nil
  show ?case by (simp add: replace_def)
next
  case (Cons c s)
  obtain w ws where sp: "split_on old s = w # ws"
    using split_on_not_Nil [of old s] by (cases "split_on old s") auto
  show ?case
  proof (cases "c = old")
    case True
    with Cons sp show ?thesis by (simp add: replace_def join_Cons)
  next
    case False
    with Cons sp show ?thesis by (cases ws) (auto simp: replace_def)
  qed
qed

lemma join_letters: "join [] (map f (map (\<lambda>letter. [letter]) s)) = concat (map (\<lambda>c. f [c]) s)"
proof (induction s)
  case Nil show ?case by simp
next
  case (Cons c s)
  then show ?case by (cases s) auto
qed

lemma last_segment_suffix:
  "\<exists>pre. u = pre @ last_segment u \<and> (pre = [] \<or> last pre = CHR ''/'') \<and> CHR ''/'' \<notin> set (last_segment u)"
proof -
  let ?p = "\<lambda>c. c \<noteq> CHR ''/''"
  have u: "u = rev (dropWhile ?p (rev u)) @ last_segment u"
    unfolding last_segment_def
    by (metis rev_append rev_rev_ident takeWhile_dropWhile_id)
  have l: "rev (dropWhile ?p (rev u)) = [] \<or> last (rev (dropWhile ?p (rev u))) = CHR ''/''"
  proof (cases "dropWhile ?p (rev u)")
    case Nil then show ?thesis by simp
  next
    case (Cons a as)
    then have "\<not> ?p a" using hd_dropWhile [of ?p "rev u"] by auto
    with Cons show ?thesis by simp
  qed
  have n: "CHR ''/'' \<notin> set (last_segment u)"
    unfolding last_segment_def using set_takeWhileD by fastforce
  from u l n show ?thesis by blast
qed

lemma count_tokens_eq:
  "count_tokens lib text =
     int (length (filter (\<lambda>token. isalpha token \<and> lower token \<notin> stop_words lib) (word_tokenize lib text)))"
  by (simp add: count_tokens_def Let_def filter_map o_def conj_commute)


section \<open>Deduplication\<close>

lemma drop_duplicates_keys:
  "set (map key (drop_duplicates key seen xs)) \<inter> set seen = {} \<and>
   distinct (map key (drop_duplicates key seen xs))"
proof (induction xs arbitrary: seen)
  case Nil
  show ?case by simp
next
  case (Cons x xs)
  show ?case
  proof (cases "key x \<in> set seen")
    case True
    with Cons.IH [of seen] show ?thesis by simp
  next
    case False
    with Cons.IH [of "key x # seen"] show ?thesis by auto
  qed
qed

lemma upt_Suc_shift: "[0..<Suc n] = 0 # map Suc [0..<n]"
  by (simp add: upt_conv_Cons map_Suc_upt del: upt_Suc)

lemma drop_duplicates_first_occurrences:
  "drop_duplicates key seen xs =
     map (\<lambda>i. xs ! i)
       (filter (\<lambda>i. key (xs ! i) \<notin> set seen \<and> (\<forall>j<i. key (xs ! j) \<noteq> key (xs ! i)))
          [0..<length xs])"
proof (induction xs arbitrary: seen)
  case Nil
  show ?case by simp
next
  case (Cons x xs)
  have shift: "[0..<length (x # xs)] = 0 # map Suc [0..<length xs]"
    using upt_Suc_shift [of "length xs"] by simp
  show ?case
  proof (cases "key x \<in> set seen")
    case True
    have "filter (\<lambda>i. key (xs ! i) \<notin> set seen \<and> (\<forall>j<i. key (xs ! j) \<noteq> key (xs ! i))) [0..<length xs]
        = filter (\<lambda>i. key (xs ! i) \<notin> set seen \<and> (\<forall>j<Suc i. key ((x # xs) ! j) \<noteq> key (xs ! i))) [0..<length xs]"
      using True by (intro filter_cong refl) (auto simp: All_less_Suc2)
    with True Cons.IH [of seen] show ?thesis
      unfolding shift by (simp add: filter_map o_def)
  next
    case False
    have "filter (\<lambda>i. key (xs ! i) \<notin> set (key x # seen) \<and> (\<forall>j<i. key (xs ! j) \<noteq> key (xs ! i))) [0..<length xs]
        = filter (\<lambda>i. key (xs ! i) \<notin> set seen \<and> (\<forall>j<Suc i. key ((x # xs) ! j) \<noteq> key (xs ! i))) [0..<length xs]"
      by (intro filter_cong refl) (auto simp: All_less_Suc2)
    with False Cons.IH [of "key x # seen"] show ?thesis
      unfolding shift by (simp add: filter_map o_def)
  qed
qed

text \<open>
  C3. On a frame with a title column, deduplication on the title does not fail; it keeps
  exactly the rows whose title occurs in no earlier row, in their input order, so the
  first row of every title stays, every later one goes, and no two rows of the result
  share a title. Rows titled A, B, A, C give rows titled A, B, C.
\<close>

theorem remove_duplicate_entries_keeps_first:
  "(''title'' \<in> set (columns df) \<longrightarrow>
      (\<exists>out. remove_duplicate_entries df ''title'' = Inr out
         \<and> columns out = columns df
         \<and> rows out =
             map (\<lambda>i. rows df ! i)
               (filter (\<lambda>i. \<forall>j<i. snd (rows df ! j) ''title'' \<noteq> snd (rows df ! i) ''title'')
                  [0..<length (rows df)])
         \<and> distinct (map (\<lambda>lr. snd lr ''title'') (rows out))))
   \<and> map_sum id (\<lambda>out. map (\<lambda>lr. snd lr ''title'') (rows out))
         (remove_duplicate_entries abac_frame ''title'')
       = Inr [Str ''A'', Str ''B'', Str ''C'']"
proof
  show "''title'' \<in> set (columns df) \<longrightarrow>
      (\<exists>out. remove_duplicate_entries df ''title'' = Inr out
         \<and> columns out = columns df
         \<and> rows out =
             map (\<lambda>i. rows df ! i)
               (filter (\<lambda>i. \<forall>j<i. snd (rows df ! j) ''title'' \<noteq> snd (rows df ! i) ''title'')
                  [0..<length (rows df)])
         \<and> distinct (map (\<lambda>lr. snd lr ''title'') (rows out)))"
    using drop_duplicates_first_occurrences [of "\<lambda>lr. snd lr ''title''" "[]" "rows df"]
      drop_duplicates_keys [of "\<lambda>lr. snd lr ''title''" "[]" "rows df"]
    by (simp add: remove_duplicate_entries_def)
next
  show "map_sum id (\<lambda>out. map (\<lambda>lr. snd lr ''title'') (rows out))
         (remove_duplicate_entries abac_frame ''title'')
       = Inr [Str ''A'', Str ''B'', Str ''C'']"
    by (simp add: remove_duplicate_entries_def abac_frame_def read_frame_def text_row_def
        upt_conv_Cons)
qed

theorem remove_duplicate_entries_keeps_first_witness:
  "''title'' \<in> set (columns abac_frame)
   \<and> (\<exists>out. remove_duplicate_entries abac_frame ''title'' = Inr out
         \<and> rows out =
             map (\<lambda>i. rows abac_frame ! i)
               (filter (\<lambda>i. \<forall>j<i. snd (rows abac_frame ! j) ''title''
                                      \<noteq> snd (rows abac_frame ! i) ''title'')
                  [0..<length (rows abac_frame)])
         \<and> distinct (map (\<lambda>lr. snd lr ''title'') (rows out)))"
proof -
  have h: "''title'' \<in> set (columns abac_frame)"
    by (simp add: abac_frame_def read_frame_def)
  from remove_duplicate_entries_keeps_first [of abac_frame] h show ?thesis
    by blast
qed


section \<open>Token counts\<close>

text \<open>
  C5. For every text and every stop-word set, the count is the number of tokens of the
  text that are alphabetic and whose lowered form is no stop word. The empty text, which
  has no token, counts 0; the text "The Quick Fox! 2 Jumps", whose tokens are The, Quick,
  Fox, !, 2, Jumps, counts 3 with the stop words {the}.
\<close>

theorem count_tokens_counts:
  "count_tokens lib text =
     int (length (filter (\<lambda>token. isalpha token \<and> lower token \<notin> stop_words lib)
                    (word_tokenize lib text)))
   \<and> (word_tokenize lib [] = [] \<longrightarrow> count_tokens lib [] = 0)
   \<and> (word_tokenize lib ''The Quick Fox! 2 Jumps''
          = [''The'', ''Quick'', ''Fox'', ''!'', ''2'', ''Jumps'']
        \<and> stop_words lib = {''the''}
      \<longrightarrow> count_tokens lib ''The Quick Fox! 2 Jumps'' = 3)"
proof (intro conjI impI)
  show "count_tokens lib text =
     int (length (filter (\<lambda>token. isalpha token \<and> lower token \<notin> stop_words lib)
                    (word_tokenize lib text)))"
    by (rule count_tokens_eq)
next
  assume "word_tokenize lib [] = []"
  then show "count_tokens lib [] = 0"
    by (simp add: count_tokens_def)
next
  assume "word_tokenize lib ''The Quick Fox! 2 Jumps''
          = [''The'', ''Quick'', ''Fox'', ''!'', ''2'', ''Jumps'']
        \<and> stop_words lib = {''the''}"
  then show "count_tokens lib ''The Quick Fox! 2 Jumps'' = 3"
    by (simp add: count_tokens_def isalpha_def isalpha_char_def lower_def lower_char_def
        Let_def char_of_def bit_Suc_0_iff)
qed

theorem count_tokens_counts_witness:
  "word_tokenize fox_library [] = []
   \<and> count_tokens fox_library [] = 0
   \<and> word_tokenize fox_library ''The Quick Fox! 2 Jumps''
        = [''The'', ''Quick'', ''Fox'', ''!'', ''2'', ''Jumps'']
   \<and> stop_words fox_library = {''the''}
   \<and> count_tokens fox_library ''The Quick Fox! 2 Jumps'' = 3"
proof -
  have e: "word_tokenize fox_library [] = []"
    by (simp add: fox_library_def whitespace_tokenize_def)
  have t: "word_tokenize fox_library ''The Quick Fox! 2 Jumps''
        = [''The'', ''Quick'', ''Fox'', ''!'', ''2'', ''Jumps'']"
    by (simp add: fox_library_def)
  have s: "stop_words fox_library = {''the''}"
    by (simp add: fox_library_def)
  from count_tokens_counts [of fox_library "[]"] e t s show ?thesis
    by blast
qed

section \<open>Facts about the title repair\<close>

lemma missing_title_Inr_iff:
  "missing_title url = Inr t \<longleftrightarrow>
     (\<exists>u. url = Str u \<and> last_segment u \<noteq> []
          \<and> t = Str (replace CHR ''-'' CHR '' '' (last_segment u)))"
  by (cases url)
    (auto simp: missing_title_def str_extract_def and_then_def join_split_on)

lemma missing_title_Inl:
  "missing_title url = Inl e \<Longrightarrow> e = AttributeError"
  by (cases url) (auto simp: missing_title_def str_extract_def and_then_def split: if_splits)

lemma fill_row_Inr_iff:
  "fill_row lr = Inr lr' \<longleftrightarrow>
     (if snd lr ''title'' = NaN
      then \<exists>u. snd lr ''url'' = Str u \<and> last_segment u \<noteq> []
             \<and> lr' = (fst lr, (snd lr)(''title'' := Str (replace CHR ''-'' CHR '' '' (last_segment u))))
      else lr' = lr)"
proof (cases "snd lr ''title'' = NaN")
  case True
  show ?thesis
  proof (cases "missing_title (snd lr ''url'')")
    case (Inl e)
    with True missing_title_Inr_iff [of "snd lr ''url''"] show ?thesis
      by (auto simp: fill_row_def isna_def and_then_def)
  next
    case (Inr t)
    with True missing_title_Inr_iff [of "snd lr ''url''" t] show ?thesis
      by (auto simp: fill_row_def isna_def and_then_def)
  qed
next
  case False
  then show ?thesis by (auto simp: fill_row_def isna_def)
qed

lemma fill_missing_titles_Inr:
  assumes "fill_missing_titles df = Inr out"
  shows "columns out = columns df \<and> index_name out = index_name df
         \<and> list_all2 (\<lambda>lr lr'. fill_row lr = Inr lr') (rows df) (rows out)
         \<and> ''title'' \<in> set (columns df) \<and> ''url'' \<in> set (columns df)"
  using assms
  by (auto simp: fill_missing_titles_def and_then_def traverse_Inr_iff
      split: if_splits sum.splits)

section \<open>Title repair\<close>

text \<open>
  C4. The claim fails on the code for a row without a title whose url ends in a slash:
  the url has no last segment, the extraction gives a missing value and not the empty
  text, and the stage ends with the AttributeError of \<^verbatim>\<open>title.split\<close> instead of
  returning a frame with the title filled in.
\<close>

theorem fill_missing_titles_trailing_slash:
  "fill_missing_titles trailing_slash_frame = Inl AttributeError"
  by (simp add: fill_missing_titles_def trailing_slash_frame_def read_frame_def text_row_def
      fill_row_def isna_def is_text_def missing_title_def str_extract_def last_segment_def
      and_then_def)

theorem fill_missing_titles_trailing_slash_witness:
  "''title'' \<in> set (columns trailing_slash_frame)
   \<and> ''url'' \<in> set (columns trailing_slash_frame)
   \<and> map (\<lambda>lr. (snd lr ''title'', snd lr ''url'')) (rows trailing_slash_frame)
        = [(NaN, Str ''https://site.test/news/'')]
   \<and> fill_missing_titles trailing_slash_frame = Inl AttributeError"
proof -
  have "''title'' \<in> set (columns trailing_slash_frame)
   \<and> ''url'' \<in> set (columns trailing_slash_frame)
   \<and> map (\<lambda>lr. (snd lr ''title'', snd lr ''url'')) (rows trailing_slash_frame)
        = [(NaN, Str ''https://site.test/news/'')]"
    by (simp add: trailing_slash_frame_def read_frame_def text_row_def)
  with fill_missing_titles_trailing_slash show ?thesis by simp
qed

text \<open>
  Where the title repair returns, it does what its docstring says: the frame has the
  same rows in the same order and no title is missing; a row that had a title is
  unchanged, and a row without one has as title the last segment of its url with every
  hyphen replaced by a space. The last segment is what follows the last slash of the
  url. The url https://site.test/news/this-is-a-title gives the title "this is a title".
\<close>

lemma fill_missing_titles_effect:
  "(fill_missing_titles df = Inr out \<longrightarrow>
      columns out = columns df \<and> length (rows out) = length (rows df)
      \<and> (\<forall>i<length (rows df).
            fst (rows out ! i) = fst (rows df ! i)
            \<and> snd (rows out ! i) ''title'' \<noteq> NaN
            \<and> (snd (rows df ! i) ''title'' \<noteq> NaN \<longrightarrow> snd (rows out ! i) = snd (rows df ! i))
            \<and> (snd (rows df ! i) ''title'' = NaN \<longrightarrow>
                 (\<exists>u. snd (rows df ! i) ''url'' = Str u \<and> last_segment u \<noteq> []
                    \<and> snd (rows out ! i) =
                        (snd (rows df ! i))
                          (''title'' := Str (replace CHR ''-'' CHR '' '' (last_segment u)))))))
   \<and> (\<exists>pre. v = pre @ last_segment v \<and> (pre = [] \<or> last pre = CHR ''/'')
          \<and> CHR ''/'' \<notin> set (last_segment v))
   \<and> missing_title (Str ''https://site.test/news/this-is-a-title'') = Inr (Str ''this is a title'')"
proof (intro conjI)
  show "fill_missing_titles df = Inr out \<longrightarrow>
      columns out = columns df \<and> length (rows out) = length (rows df)
      \<and> (\<forall>i<length (rows df).
            fst (rows out ! i) = fst (rows df ! i)
            \<and> snd (rows out ! i) ''title'' \<noteq> NaN
            \<and> (snd (rows df ! i) ''title'' \<noteq> NaN \<longrightarrow> snd (rows out ! i) = snd (rows df ! i))
            \<and> (snd (rows df ! i) ''title'' = NaN \<longrightarrow>
                 (\<exists>u. snd (rows df ! i) ''url'' = Str u \<and> last_segment u \<noteq> []
                    \<and> snd (rows out ! i) =
                        (snd (rows df ! i))
                          (''title'' := Str (replace CHR ''-'' CHR '' '' (last_segment u))))))"
  proof
    assume ok: "fill_missing_titles df = Inr out"
    note f = fill_missing_titles_Inr [OF ok]
    from f have len: "length (rows out) = length (rows df)"
      by (auto dest: list_all2_lengthD)
    have each: "fill_row (rows df ! i) = Inr (rows out ! i)" if "i < length (rows df)" for i
      using f that by (auto dest: list_all2_nthD)
    have row: "fst (rows out ! i) = fst (rows df ! i)
            \<and> snd (rows out ! i) ''title'' \<noteq> NaN
            \<and> (snd (rows df ! i) ''title'' \<noteq> NaN \<longrightarrow> snd (rows out ! i) = snd (rows df ! i))
            \<and> (snd (rows df ! i) ''title'' = NaN \<longrightarrow>
                 (\<exists>u. snd (rows df ! i) ''url'' = Str u \<and> last_segment u \<noteq> []
                    \<and> snd (rows out ! i) =
                        (snd (rows df ! i))
                          (''title'' := Str (replace CHR ''-'' CHR '' '' (last_segment u)))))"
      if "i < length (rows df)" for i
      using each [OF that] fill_row_Inr_iff [of "rows df ! i" "rows out ! i"]
      by (cases "snd (rows df ! i) ''title'' = NaN") auto
    from f len row show "columns out = columns df \<and> length (rows out) = length (rows df)
      \<and> (\<forall>i<length (rows df).
            fst (rows out ! i) = fst (rows df ! i)
            \<and> snd (rows out ! i) ''title'' \<noteq> NaN
            \<and> (snd (rows df ! i) ''title'' \<noteq> NaN \<longrightarrow> snd (rows out ! i) = snd (rows df ! i))
            \<and> (snd (rows df ! i) ''title'' = NaN \<longrightarrow>
                 (\<exists>u. snd (rows df ! i) ''url'' = Str u \<and> last_segment u \<noteq> []
                    \<and> snd (rows out ! i) =
                        (snd (rows df ! i))
                          (''title'' := Str (replace CHR ''-'' CHR '' '' (last_segment u))))))"
      by blast
  qed
next
  show "\<exists>pre. v = pre @ last_segment v \<and> (pre = [] \<or> last pre = CHR ''/'')
          \<and> CHR ''/'' \<notin> set (last_segment v)"
    by (rule last_segment_suffix)
next
  show "missing_title (Str ''https://site.test/news/this-is-a-title'') = Inr (Str ''this is a title'')"
    by (simp add: missing_title_def str_extract_def last_segment_def and_then_def)
qed

section \<open>Facts about frames\<close>

lemma traverse_Inr_nth:
  assumes "traverse f xs = Inr ys"
  shows "length ys = length xs \<and> (\<forall>i<length xs. f (xs ! i) = Inr (ys ! i))"
  using assms unfolding traverse_Inr_iff by (auto simp: list_all2_conv_all_nth)

lemma set_column_nth:
  assumes "length vs = length (rows df)"
  shows "length (rows (set_column c vs df)) = length (rows df)
         \<and> (\<forall>i<length (rows df).
               rows (set_column c vs df) ! i = (fst (rows df ! i), (snd (rows df ! i))(c := vs ! i)))"
  using assms by (simp add: set_column_def split_beta)

lemma set_column_fields:
  "columns (set_column c vs df) = add_column c (columns df)
   \<and> index_name (set_column c vs df) = index_name df"
  by (simp add: set_column_def)

lemma in_add_column: "k \<in> set (add_column c cols) \<longleftrightarrow> k = c \<or> k \<in> set cols"
  by (auto simp: add_column_def)

lemma add_newspaper_uid_column_nth:
  "columns (add_newspaper_uid_column df u) = add_column ''newspaper_uid'' (columns df)
   \<and> index_name (add_newspaper_uid_column df u) = index_name df
   \<and> length (rows (add_newspaper_uid_column df u)) = length (rows df)
   \<and> (\<forall>i<length (rows df).
         rows (add_newspaper_uid_column df u) ! i
           = (fst (rows df ! i), (snd (rows df ! i))(''newspaper_uid'' := Str u)))"
  using set_column_nth [of "replicate (length (rows df)) (Str u)" df "''newspaper_uid''"]
  by (simp add: add_newspaper_uid_column_def set_column_fields)

lemma host_of_Inr_iff:
  "host_of lib url = Inr h \<longleftrightarrow> (\<exists>u n. url = Str u \<and> urlparse_netloc lib u = Inr n \<and> h = Str n)"
  by (cases url) (auto simp: host_of_def split: sum.splits)

lemma extract_host_Inr:
  assumes "extract_host lib df = Inr out"
  shows "''url'' \<in> set (columns df) \<and> columns out = add_column ''host'' (columns df)
         \<and> index_name out = index_name df \<and> length (rows out) = length (rows df)
         \<and> (\<forall>i<length (rows df). \<exists>u h.
               snd (rows df ! i) ''url'' = Str u \<and> urlparse_netloc lib u = Inr h
               \<and> rows out ! i = (fst (rows df ! i), (snd (rows df ! i))(''host'' := Str h)))"
proof -
  from assms have url: "''url'' \<in> set (columns df)"
    by (auto simp: extract_host_def split: if_splits)
  with assms obtain hosts
    where tr: "traverse (\<lambda>(l, r). host_of lib (r ''url'')) (rows df) = Inr hosts"
      and out: "out = set_column ''host'' hosts df"
    by (auto simp: extract_host_def and_then_def split: sum.splits)
  note t = traverse_Inr_nth [OF tr]
  from t have len: "length hosts = length (rows df)" by simp
  note s = set_column_nth [OF len, of "''host''"]
  have "\<exists>u h. snd (rows df ! i) ''url'' = Str u \<and> urlparse_netloc lib u = Inr h
          \<and> rows out ! i = (fst (rows df ! i), (snd (rows df ! i))(''host'' := Str h))"
    if i: "i < length (rows df)" for i
  proof -
    from t i have "host_of lib (snd (rows df ! i) ''url'') = Inr (hosts ! i)"
      by (auto simp: split_beta)
    then obtain u n where "snd (rows df ! i) ''url'' = Str u" "urlparse_netloc lib u = Inr n"
      "hosts ! i = Str n" unfolding host_of_Inr_iff by blast
    with s i out show ?thesis by simp
  qed
  with url out s show ?thesis by (simp add: set_column_fields)
qed

lemma uid_of_Inr_iff:
  "uid_of url = Inr uid \<longleftrightarrow>
     (\<exists>u. url = Str u \<and> uid = Str (hexdigest (md5_digest (str_encode u))))"
  by (cases url) (auto simp: uid_of_def)

lemma removeAll_add_column: "removeAll c (add_column c cols) = removeAll c cols"
  by (simp add: add_column_def)

lemma generate_uids_for_rows_Inr:
  assumes "generate_uids_for_rows df = Inr out"
  shows "columns out = removeAll ''uid'' (columns df) \<and> index_name out = Some ''uid''
         \<and> length (rows out) = length (rows df)
         \<and> (rows df = [] \<longrightarrow> length (columns df) = 1)
         \<and> (rows df \<noteq> [] \<longrightarrow> ''url'' \<in> set (columns df))
         \<and> (\<forall>i<length (rows df). \<exists>u.
               snd (rows df ! i) ''url'' = Str u
               \<and> rows out ! i =
                   (Str (hexdigest (md5_digest (str_encode u))),
                    (snd (rows df ! i))(''uid'' := Str (hexdigest (md5_digest (str_encode u))))))"
proof (cases "rows df = []")
  case True
  with assms show ?thesis
    by (auto simp: generate_uids_for_rows_def set_index_def set_column_def removeAll_add_column
        split: if_splits)
next
  case False
  with assms have url: "''url'' \<in> set (columns df)"
    by (auto simp: generate_uids_for_rows_def split: if_splits)
  with assms False obtain uids
    where tr: "traverse (\<lambda>(l, r). uid_of (r ''url'')) (rows df) = Inr uids"
      and out: "out = set_index ''uid'' (set_column ''uid'' uids df)"
    by (auto simp: generate_uids_for_rows_def and_then_def split: sum.splits)
  note t = traverse_Inr_nth [OF tr]
  from t have len: "length uids = length (rows df)" by simp
  note s = set_column_nth [OF len, of "''uid''"]
  have "\<exists>u. snd (rows df ! i) ''url'' = Str u
          \<and> rows out ! i =
              (Str (hexdigest (md5_digest (str_encode u))),
               (snd (rows df ! i))(''uid'' := Str (hexdigest (md5_digest (str_encode u)))))"
    if i: "i < length (rows df)" for i
  proof -
    from t i have "uid_of (snd (rows df ! i) ''url'') = Inr (uids ! i)"
      by (auto simp: split_beta)
    then obtain u where "snd (rows df ! i) ''url'' = Str u"
      "uids ! i = Str (hexdigest (md5_digest (str_encode u)))"
      unfolding uid_of_Inr_iff by blast
    with s i out show ?thesis by (simp add: set_index_def)
  qed
  with url out s False show ?thesis
    by (simp add: set_index_def set_column_fields removeAll_add_column)
qed

lemma strip_new_lines_Inr_iff:
  "strip_new_lines body = Inr b \<longleftrightarrow>
     (\<exists>s. body = Str s \<and> b = Str (replace (CHR 0x0A) CHR '' '' s))"
proof -
  have "join [] (map (replace (CHR 0x0A) CHR '' '') (map (\<lambda>letter. [letter]) s))
          = replace (CHR 0x0A) CHR '' '' s" for s
    unfolding join_letters by (induction s) (auto simp: replace_def)
  then show ?thesis
    by (cases body) (auto simp: strip_new_lines_def)
qed

lemma remove_new_lines_from_body_Inr:
  assumes "remove_new_lines_from_body df = Inr out"
  shows "columns out = add_column ''body'' (columns df) \<and> index_name out = index_name df
         \<and> length (rows out) = length (rows df)
         \<and> (rows df = [] \<longrightarrow> columns df = [])
         \<and> (rows df \<noteq> [] \<longrightarrow> ''body'' \<in> set (columns df))
         \<and> (\<forall>i<length (rows df). \<exists>s.
               snd (rows df ! i) ''body'' = Str s
               \<and> rows out ! i =
                   (fst (rows df ! i),
                    (snd (rows df ! i))(''body'' := Str (replace (CHR 0x0A) CHR '' '' s))))"
proof (cases "rows df = []")
  case True
  with assms show ?thesis
    by (auto simp: remove_new_lines_from_body_def set_column_def split: if_splits)
next
  case False
  with assms have body: "''body'' \<in> set (columns df)"
    by (auto simp: remove_new_lines_from_body_def split: if_splits)
  with assms False obtain bs
    where tr: "traverse (\<lambda>(l, r). strip_new_lines (r ''body'')) (rows df) = Inr bs"
      and out: "out = set_column ''body'' bs df"
    by (auto simp: remove_new_lines_from_body_def and_then_def split: sum.splits)
  note t = traverse_Inr_nth [OF tr]
  from t have len: "length bs = length (rows df)" by simp
  note s = set_column_nth [OF len, of "''body''"]
  have "\<exists>s. snd (rows df ! i) ''body'' = Str s
          \<and> rows out ! i =
              (fst (rows df ! i),
               (snd (rows df ! i))(''body'' := Str (replace (CHR 0x0A) CHR '' '' s)))"
    if i: "i < length (rows df)" for i
  proof -
    from t i have "strip_new_lines (snd (rows df ! i) ''body'') = Inr (bs ! i)"
      by (auto simp: split_beta)
    then obtain b where "snd (rows df ! i) ''body'' = Str b"
      "bs ! i = Str (replace (CHR 0x0A) CHR '' '' b)"
      unfolding strip_new_lines_Inr_iff by blast
    with s i out show ?thesis by simp
  qed
  with body out s False show ?thesis by (simp add: set_column_fields)
qed

lemma setitem_series_Inr:
  assumes "setitem_series t ser df = Inr out"
  shows "columns out = add_column t (columns df) \<and> index_name out = index_name df
         \<and> length (rows out) = length (rows df)
         \<and> (\<forall>i<length (rows df). \<exists>v.
               rows out ! i = (fst (rows df ! i), (snd (rows df ! i))(t := v)))"
proof (cases "map fst ser = map fst (rows df)")
  case True
  then have len: "length (map snd ser) = length (rows df)"
    using length_map [of fst ser] length_map [of fst "rows df"] by simp
  from True assms have out: "out = set_column t (map snd ser) df"
    by (simp add: setitem_series_def)
  from set_column_nth [OF len, of t] out show ?thesis
    by (auto simp: set_column_fields)
next
  case False
  let ?vs = "map (\<lambda>(l, r). case map_of ser l of Some v \<Rightarrow> v | None \<Rightarrow> NaN) (rows df)"
  have len: "length ?vs = length (rows df)" by simp
  from False assms have out: "out = set_column t ?vs df"
    by (auto simp: setitem_series_def split: if_splits)
  from set_column_nth [OF len, of t] out show ?thesis
    by (auto simp: set_column_fields)
qed

lemma tokenize_column_Inr:
  assumes "tokenize_column lib df c = Inr ser"
  shows "(rows df = [] \<longrightarrow> columns df = []) \<and> (rows df \<noteq> [] \<longrightarrow> c \<in> set (columns df))
         \<and> rows (dropna df) \<noteq> [] \<or> (rows df = [] \<and> columns df = [] \<and> ser = [])"
proof (cases "rows (dropna df) = []")
  case True
  with assms have c: "columns df = []" and s: "ser = []"
    by (auto simp: tokenize_column_def Let_def split: if_splits)
  from c True have "rows df = []"
    by (simp add: dropna_def complete_def)
  with c s show ?thesis by simp
next
  case False
  then have r: "rows df \<noteq> []" by (auto simp: dropna_def)
  from False assms have "c \<in> set (columns df)"
    by (auto simp: tokenize_column_def Let_def split: if_splits)
  with False r show ?thesis by simp
qed

lemma tokenize_title_Inr:
  assumes "tokenize_title lib df = Inr out"
  shows "columns out = add_column ''n_tokens_title'' (columns df) \<and> index_name out = index_name df
         \<and> length (rows out) = length (rows df)
         \<and> (rows df = [] \<longrightarrow> columns df = [])
         \<and> (rows df \<noteq> [] \<longrightarrow> ''title'' \<in> set (columns df))
         \<and> (\<forall>i<length (rows df). \<exists>v.
               rows out ! i = (fst (rows df ! i), (snd (rows df ! i))(''n_tokens_title'' := v)))"
proof -
  from assms obtain ser where ser: "tokenize_column lib df ''title'' = Inr ser"
    and set: "setitem_series ''n_tokens_title'' ser df = Inr out"
    by (auto simp: tokenize_title_def and_then_def split: sum.splits)
  from tokenize_column_Inr [OF ser] setitem_series_Inr [OF set] show ?thesis
    by auto
qed

lemma tokenize_body_Inr:
  assumes "tokenize_body lib df = Inr out"
  shows "columns out = add_column ''n_tokens_body'' (columns df) \<and> index_name out = index_name df
         \<and> length (rows out) = length (rows df)
         \<and> (rows df = [] \<longrightarrow> columns df = [])
         \<and> (rows df \<noteq> [] \<longrightarrow> ''body'' \<in> set (columns df))
         \<and> (\<forall>i<length (rows df). \<exists>v.
               rows out ! i = (fst (rows df ! i), (snd (rows df ! i))(''n_tokens_body'' := v)))"
proof -
  from assms obtain ser where ser: "tokenize_column lib df ''body'' = Inr ser"
    and set: "setitem_series ''n_tokens_body'' ser df = Inr out"
    by (auto simp: tokenize_body_def and_then_def split: sum.splits)
  from tokenize_column_Inr [OF ser] setitem_series_Inr [OF set] show ?thesis
    by auto
qed

lemma set_drop_duplicates: "set (drop_duplicates key seen xs) \<subseteq> set xs"
  by (induction xs arbitrary: seen) auto

lemma remove_duplicate_entries_Inr:
  assumes "remove_duplicate_entries df c = Inr out"
  shows "c \<in> set (columns df) \<and> columns out = columns df \<and> index_name out = index_name df
         \<and> rows out = drop_duplicates (\<lambda>lr. snd lr c) [] (rows df)
         \<and> set (rows out) \<subseteq> set (rows df)"
  using assms set_drop_duplicates [of "\<lambda>lr. snd lr c" "[]" "rows df"]
  by (auto simp: remove_duplicate_entries_def split: if_splits)

lemma drop_rows_with_missing_values_rows:
  "columns (drop_rows_with_missing_values df) = columns df
   \<and> index_name (drop_rows_with_missing_values df) = index_name df
   \<and> rows (drop_rows_with_missing_values df) = filter (complete (columns df)) (rows df)"
  by (simp add: drop_rows_with_missing_values_def dropna_def)

lemma main_stages:
  assumes "main lib filename df0 = Inr out"
  shows "\<exists>df2 df3 df4 df5 df6 df7 df8.
           extract_host lib (add_newspaper_uid_column df0 (extract_newspaper_uid filename)) = Inr df2
           \<and> fill_missing_titles df2 = Inr df3
           \<and> generate_uids_for_rows df3 = Inr df4
           \<and> remove_new_lines_from_body df4 = Inr df5
           \<and> tokenize_title lib df5 = Inr df6
           \<and> tokenize_body lib df6 = Inr df7
           \<and> remove_duplicate_entries df7 ''title'' = Inr df8
           \<and> out = drop_rows_with_missing_values df8"
  using assms by (auto simp: main_def Let_def split: sum.splits)

lemma rows_step:
  assumes "length rs' = length rs"
    and "\<forall>i<length rs. R (rs ! i) (rs' ! i)"
    and "\<forall>lr\<in>set rs. P lr"
    and "\<And>lr lr'. P lr \<Longrightarrow> R lr lr' \<Longrightarrow> Q lr'"
  shows "\<forall>lr'\<in>set rs'. Q lr'"
proof
  fix lr' assume "lr' \<in> set rs'"
  then obtain i where i: "i < length rs'" and lr': "lr' = rs' ! i"
    by (auto simp: in_set_conv_nth)
  from i assms(1) have "rs ! i \<in> set rs" by simp
  with assms(3) have "P (rs ! i)" by blast
  moreover from i assms(1,2) have "R (rs ! i) (rs' ! i)" by simp
  ultimately show "Q lr'" using assms(4) lr' by blast
qed

lemma two_columns: "a \<in> set xs \<Longrightarrow> b \<in> set xs \<Longrightarrow> a \<noteq> b \<Longrightarrow> length xs \<noteq> Suc 0"
  by (cases xs) auto

lemma main_Inr:
  assumes "main lib filename df0 = Inr out"
  shows "index_name out = Some ''uid''
    \<and> set [''url'', ''title'', ''body'', ''host'', ''newspaper_uid'', ''n_tokens_title'',
            ''n_tokens_body''] \<subseteq> set (columns out)
    \<and> (\<forall>lr\<in>set (rows out).
          complete (columns out) lr
          \<and> snd lr ''newspaper_uid'' = Str (extract_newspaper_uid filename)
          \<and> (\<exists>u h. snd lr ''url'' = Str u \<and> urlparse_netloc lib u = Inr h
                 \<and> snd lr ''host'' = Str h
                 \<and> fst lr = Str (hexdigest (md5_digest (str_encode u)))))
    \<and> rows df0 \<noteq> []"
proof -
  let ?nu = "extract_newspaper_uid filename"
  let ?df1 = "add_newspaper_uid_column df0 ?nu"
  from main_stages [OF assms] obtain df2 df3 df4 df5 df6 df7 df8
    where s2: "extract_host lib ?df1 = Inr df2"
      and s3: "fill_missing_titles df2 = Inr df3"
      and s4: "generate_uids_for_rows df3 = Inr df4"
      and s5: "remove_new_lines_from_body df4 = Inr df5"
      and s6: "tokenize_title lib df5 = Inr df6"
      and s7: "tokenize_body lib df6 = Inr df7"
      and s8: "remove_duplicate_entries df7 ''title'' = Inr df8"
      and out: "out = drop_rows_with_missing_values df8"
    by blast
  note f1 = add_newspaper_uid_column_nth [of df0 ?nu]
  note f2 = extract_host_Inr [OF s2]
  note f3 = fill_missing_titles_Inr [OF s3]
  note f4 = generate_uids_for_rows_Inr [OF s4]
  note f5 = remove_new_lines_from_body_Inr [OF s5]
  note f6 = tokenize_title_Inr [OF s6]
  note f7 = tokenize_body_Inr [OF s7]
  note f8 = remove_duplicate_entries_Inr [OF s8]
  note f9 = drop_rows_with_missing_values_rows [of df8]
  \<comment> \<open>the columns\<close>
  have c3: "{''url'', ''title'', ''host'', ''newspaper_uid''} \<subseteq> set (columns df3)"
    using f1 f2 f3 by (auto simp: in_add_column)
  from c3 have "length (columns df3) \<noteq> Suc 0"
    using two_columns [of "''url''" "columns df3" "''title''"] by auto
  with f4 have r3: "rows df3 \<noteq> []" by auto
  with f3 f2 f1 have r0: "rows df0 \<noteq> []"
    by (auto dest: list_all2_lengthD)
  from r3 f4 have r4: "rows df4 \<noteq> []" by auto
  with f5 have r5: "rows df5 \<noteq> []" and b4: "''body'' \<in> set (columns df4)" by auto
  from c3 f4 have c4: "{''url'', ''title'', ''host'', ''newspaper_uid''} \<subseteq> set (columns df4)"
    by auto
  with b4 f5 f6 f7 f8 f9 out
  have cols: "set [''url'', ''title'', ''body'', ''host'', ''newspaper_uid'', ''n_tokens_title'',
            ''n_tokens_body''] \<subseteq> set (columns out)"
    by (auto simp: in_add_column)
  have idx: "index_name out = Some ''uid''"
    using f4 f5 f6 f7 f8 f9 out by simp
  \<comment> \<open>the rows\<close>
  let ?A = "\<lambda>lr. snd lr ''newspaper_uid'' = Str ?nu"
  let ?B = "\<lambda>lr. ?A lr \<and> (\<exists>u h. snd lr ''url'' = Str u \<and> urlparse_netloc lib u = Inr h
                 \<and> snd lr ''host'' = Str h)"
  let ?C = "\<lambda>lr. snd lr ''newspaper_uid'' = Str ?nu
          \<and> (\<exists>u h. snd lr ''url'' = Str u \<and> urlparse_netloc lib u = Inr h
                 \<and> snd lr ''host'' = Str h
                 \<and> fst lr = Str (hexdigest (md5_digest (str_encode u))))"
  have i1: "\<forall>lr\<in>set (rows ?df1). ?A lr"
    by (rule rows_step [where rs = "rows df0" and P = "\<lambda>lr. True"
          and R = "\<lambda>lr lr'. lr' = (fst lr, (snd lr)(''newspaper_uid'' := Str ?nu))"])
      (use f1 in auto)
  have i2: "\<forall>lr\<in>set (rows df2). ?B lr"
    by (rule rows_step [where rs = "rows ?df1" and P = ?A
          and R = "\<lambda>lr lr'. \<exists>u h. snd lr ''url'' = Str u \<and> urlparse_netloc lib u = Inr h
                     \<and> lr' = (fst lr, (snd lr)(''host'' := Str h))"])
      (use f2 i1 in auto)
  have i3: "\<forall>lr\<in>set (rows df3). ?B lr"
  proof (rule rows_step [where rs = "rows df2" and P = ?B
          and R = "\<lambda>lr lr'. fill_row lr = Inr lr'"])
    show "length (rows df3) = length (rows df2)"
      using f3 by (auto dest: list_all2_lengthD)
    show "\<forall>i<length (rows df2). fill_row (rows df2 ! i) = Inr (rows df3 ! i)"
      using f3 by (auto dest: list_all2_nthD)
    show "\<forall>lr\<in>set (rows df2). ?B lr" by (rule i2)
    show "?B lr'" if "?B lr" and "fill_row lr = Inr lr'" for lr lr'
      using that fill_row_Inr_iff [of lr lr'] by (auto split: if_splits)
  qed
  have i4: "\<forall>lr\<in>set (rows df4). ?C lr"
    by (rule rows_step [where rs = "rows df3" and P = ?B
          and R = "\<lambda>lr lr'. \<exists>u. snd lr ''url'' = Str u
                     \<and> lr' = (Str (hexdigest (md5_digest (str_encode u))),
                              (snd lr)(''uid'' := Str (hexdigest (md5_digest (str_encode u)))))"])
      (use f4 i3 in auto)
  have i5: "\<forall>lr\<in>set (rows df5). ?C lr"
    by (rule rows_step [where rs = "rows df4" and P = ?C
          and R = "\<lambda>lr lr'. \<exists>v. lr' = (fst lr, (snd lr)(''body'' := v))"])
      (use f5 i4 in auto)
  have i6: "\<forall>lr\<in>set (rows df6). ?C lr"
    by (rule rows_step [where rs = "rows df5" and P = ?C
          and R = "\<lambda>lr lr'. \<exists>v. lr' = (fst lr, (snd lr)(''n_tokens_title'' := v))"])
      (use f6 i5 in auto)
  have i7: "\<forall>lr\<in>set (rows df7). ?C lr"
    by (rule rows_step [where rs = "rows df6" and P = ?C
          and R = "\<lambda>lr lr'. \<exists>v. lr' = (fst lr, (snd lr)(''n_tokens_body'' := v))"])
      (use f7 i6 in auto)
  have i9: "\<forall>lr\<in>set (rows out). ?C lr \<and> complete (columns out) lr"
  proof
    fix lr assume "lr \<in> set (rows out)"
    with out f9 have m: "lr \<in> set (rows df8)" and c: "complete (columns df8) lr" by auto
    from m f8 have "lr \<in> set (rows df7)" by blast
    with i7 have "?C lr" by blast
    moreover from c f9 out have "complete (columns out) lr" by simp
    ultimately show "?C lr \<and> complete (columns out) lr" by blast
  qed
  from idx cols i9 r0 show ?thesis by blast
qed

section \<open>Runs of the whole step\<close>

lemmas stage_defs =
  main_def extract_newspaper_uid_def add_newspaper_uid_column_def extract_host_def host_of_def
  fill_missing_titles_def fill_row_def missing_title_def str_extract_def last_segment_def
  generate_uids_for_rows_def uid_of_def remove_new_lines_from_body_def strip_new_lines_def
  tokenize_title_def tokenize_body_def tokenize_column_def count_tokens_def
  remove_duplicate_entries_def drop_rows_with_missing_values_def dropna_def complete_def
  setitem_series_def set_column_def set_index_def add_column_def and_then_def isna_def
  is_text_def
  replace_def isalpha_def isalpha_char_def lower_def lower_char_def char_of_def bit_Suc_0_iff
  read_frame_def text_row_def example_library_def urlsplit_netloc_def strip_scheme_def
  scheme_char_def ascii_alpha_def whitespace_tokenize_def Let_def upt_conv_Cons

lemma sample_run:
  "\<exists>out. main example_library ''eluniversal_2022.csv'' sample_frame = Inr out
     \<and> columns out = [''body'', ''title'', ''url'', ''newspaper_uid'', ''host'',
                       ''n_tokens_title'', ''n_tokens_body'']
     \<and> index_name out = Some ''uid''
     \<and> map fst (rows out) =
          [Str (hexdigest (md5_digest (str_encode ''https://n.test/a/hello-world''))),
           Str (hexdigest (md5_digest (str_encode ''no-host/story'')))]
     \<and> map (\<lambda>lr. map (snd lr) [''body'', ''title'', ''url'', ''newspaper_uid'', ''host'',
                       ''n_tokens_title'', ''n_tokens_body'']) (rows out) =
          [[Str ''la nota'', Str ''hello world'', Str ''https://n.test/a/hello-world'',
            Str ''eluniversal'', Str ''n.test'', Num 2, Num 1],
           [Str ''otra nota'', Str ''Story'', Str ''no-host/story'',
            Str ''eluniversal'', Str [], Num 1, Num 2]]
     \<and> map (\<lambda>lr. snd lr ''url'') (rows out) = [Str ''https://n.test/a/hello-world'', Str ''no-host/story'']
     \<and> map (\<lambda>lr. snd lr ''host'') (rows out) = [Str ''n.test'', Str []]"
  by (simp add: stage_defs sample_frame_def)

lemma bad_bracket_run:
  "main example_library ''eluniversal_2022.csv'' bad_bracket_frame = Inl ValueError"
  by (simp add: stage_defs bad_bracket_frame_def)

lemma empty_run:
  "main example_library ''eluniversal_2022.csv'' empty_frame = Inl ValueError"
  by (simp add: stage_defs empty_frame_def)

lemma md5_abc:
  "hexdigest (md5_digest (str_encode ''abc'')) = ''900150983cd24fb0d6963f7d28e17f72''"
  by code_simp

section \<open>Completeness of the output\<close>

text \<open>
  C1. Whatever the input frame, when the transform step returns a frame, the columns
  url, title, body, host, newspaper_uid (the source id), n_tokens_title and n_tokens_body
  are columns of it and no row has a missing value in any of them.
\<close>

theorem main_output_complete:
  "main lib filename df = Inr out \<longrightarrow>
     (\<forall>c\<in>set [''url'', ''title'', ''body'', ''host'', ''newspaper_uid'', ''n_tokens_title'',
                ''n_tokens_body''].
        c \<in> set (columns out) \<and> (\<forall>lr\<in>set (rows out). snd lr c \<noteq> NaN))"
proof
  assume ok: "main lib filename df = Inr out"
  note m = main_Inr [OF ok]
  show "\<forall>c\<in>set [''url'', ''title'', ''body'', ''host'', ''newspaper_uid'', ''n_tokens_title'',
                ''n_tokens_body''].
        c \<in> set (columns out) \<and> (\<forall>lr\<in>set (rows out). snd lr c \<noteq> NaN)"
  proof
    fix c
    assume "c \<in> set [''url'', ''title'', ''body'', ''host'', ''newspaper_uid'',
                ''n_tokens_title'', ''n_tokens_body'']"
    with m have c: "c \<in> set (columns out)" by blast
    have "snd lr c \<noteq> NaN" if "lr \<in> set (rows out)" for lr
    proof -
      from m that have "complete (columns out) lr" by blast
      with c show ?thesis by (auto simp: complete_def isna_def list_all_iff)
    qed
    with c show "c \<in> set (columns out) \<and> (\<forall>lr\<in>set (rows out). snd lr c \<noteq> NaN)" by blast
  qed
qed

theorem main_output_complete_witness:
  "\<exists>out. main example_library ''eluniversal_2022.csv'' sample_frame = Inr out
     \<and> length (rows out) = 2
     \<and> list_all (\<lambda>c. c \<in> set (columns out) \<and> list_all (\<lambda>lr. snd lr c \<noteq> NaN) (rows out))
          [''url'', ''title'', ''body'', ''host'', ''newspaper_uid'', ''n_tokens_title'',
           ''n_tokens_body'']"
proof -
  from sample_run obtain out
    where out: "main example_library ''eluniversal_2022.csv'' sample_frame = Inr out"
      and l: "map fst (rows out) =
          [Str (hexdigest (md5_digest (str_encode ''https://n.test/a/hello-world''))),
           Str (hexdigest (md5_digest (str_encode ''no-host/story'')))]"
    by (elim exE conjE) (rule that)
  from l have len: "length (rows out) = 2"
    using length_map [of fst "rows out"] by simp
  from main_output_complete [of example_library "''eluniversal_2022.csv''" sample_frame out] out
  have "list_all (\<lambda>c. c \<in> set (columns out) \<and> list_all (\<lambda>lr. snd lr c \<noteq> NaN) (rows out))
          [''url'', ''title'', ''body'', ''host'', ''newspaper_uid'', ''n_tokens_title'',
           ''n_tokens_body'']"
    unfolding list_all_iff by blast
  with out len show ?thesis by blast
qed

section \<open>The nine stages\<close>

text \<open>
  C2. The transform step is the nine stages in their order, each applied to the frame of
  the one before, with no branch: attach the source id, extract the host, repair the
  titles, assign the uid and make it the index, strip the new lines of the body, count
  the tokens of the title, count the tokens of the body, deduplicate on the title, drop
  the rows with a missing value. A stage that fails ends the run with its error.
\<close>

theorem main_is_nine_stages:
  "main lib filename df = foldl and_then (Inr df) (nine_stages lib filename)
   \<and> length (nine_stages lib filename) = 9
   \<and> (foldl and_then (Inr df) (take k (nine_stages lib filename)) = Inl e
        \<longrightarrow> main lib filename df = Inl e)"
proof -
  have eq: "main lib filename df = foldl and_then (Inr df) (nine_stages lib filename)"
    by (simp add: main_def nine_stages_def and_then_def Let_def split: sum.splits)
  have inl: "foldl and_then (Inl e) fs = Inl e" for fs :: "(dataframe \<Rightarrow> error + dataframe) list"
    by (induction fs) (auto simp: and_then_def)
  have "foldl and_then (Inr df) (nine_stages lib filename)
          = foldl and_then (foldl and_then (Inr df) (take k (nine_stages lib filename)))
              (drop k (nine_stages lib filename))"
    using foldl_append [of and_then "Inr df" "take k (nine_stages lib filename)"
        "drop k (nine_stages lib filename)"] by simp
  with eq inl have "foldl and_then (Inr df) (take k (nine_stages lib filename)) = Inl e
        \<longrightarrow> main lib filename df = Inl e"
    by simp
  with eq show ?thesis by (simp add: nine_stages_def)
qed

theorem main_is_nine_stages_witness:
  "foldl and_then (Inr bad_bracket_frame)
       (take 2 (nine_stages example_library ''eluniversal_2022.csv'')) = Inl ValueError
   \<and> main example_library ''eluniversal_2022.csv'' bad_bracket_frame = Inl ValueError
   \<and> main example_library ''eluniversal_2022.csv'' bad_bracket_frame
       = foldl and_then (Inr bad_bracket_frame) (nine_stages example_library ''eluniversal_2022.csv'')"
proof -
  have h: "foldl and_then (Inr bad_bracket_frame)
       (take 2 (nine_stages example_library ''eluniversal_2022.csv'')) = Inl ValueError"
    by (simp add: nine_stages_def stage_defs bad_bracket_frame_def)
  from main_is_nine_stages [of example_library "''eluniversal_2022.csv''" bad_bracket_frame 2 ValueError] h
  show ?thesis by blast
qed

section \<open>The empty batch\<close>

text \<open>
  C9, as the code has it. On a frame without rows the step does not return a frame: with
  the columns url and title it passes the first three stages and ends with the
  ValueError of \<^verbatim>\<open>df['uid'] = uids\<close> in the fourth; without one of them it ends with
  a KeyError before.
\<close>

theorem main_empty_batch:
  "rows df = [] \<longrightarrow>
     main lib filename df =
       (if ''url'' \<in> set (columns df) \<and> ''title'' \<in> set (columns df) then Inl ValueError
        else Inl KeyError)"
proof
  assume e: "rows df = []"
  let ?df1 = "add_newspaper_uid_column df (extract_newspaper_uid filename)"
  have r1: "rows ?df1 = []" and c1: "columns ?df1 = add_column ''newspaper_uid'' (columns df)"
    using e by (simp_all add: add_newspaper_uid_column_def set_column_def)
  show "main lib filename df =
       (if ''url'' \<in> set (columns df) \<and> ''title'' \<in> set (columns df) then Inl ValueError
        else Inl KeyError)"
  proof (cases "''url'' \<in> set (columns df)")
    case False
    with c1 have "extract_host lib ?df1 = Inl KeyError"
      by (simp add: extract_host_def in_add_column)
    with False show ?thesis by (simp add: main_def Let_def)
  next
    case True
    let ?df2 = "set_column ''host'' [] ?df1"
    from True r1 c1 have s2: "extract_host lib ?df1 = Inr ?df2"
      by (simp add: extract_host_def in_add_column and_then_def)
    have r2: "rows ?df2 = []"
      and c2: "columns ?df2 = add_column ''host'' (add_column ''newspaper_uid'' (columns df))"
      using r1 c1 by (simp_all add: set_column_def)
    show ?thesis
    proof (cases "''title'' \<in> set (columns df)")
      case False
      with c2 have "fill_missing_titles ?df2 = Inl KeyError"
        by (simp add: fill_missing_titles_def in_add_column)
      with s2 False show ?thesis by (simp add: main_def Let_def)
    next
      case t: True
      from t True r2 c2 have s3: "fill_missing_titles ?df2 = Inr (?df2\<lparr>rows := []\<rparr>)"
        by (simp add: fill_missing_titles_def in_add_column and_then_def)
      have "length (columns ?df2) \<noteq> Suc 0"
        using two_columns [of "''host''" "columns ?df2" "''newspaper_uid''"] c2
        by (simp add: in_add_column)
      then have "generate_uids_for_rows (?df2\<lparr>rows := []\<rparr>) = Inl ValueError"
        by (simp add: generate_uids_for_rows_def)
      with s2 s3 t True show ?thesis by (simp add: main_def Let_def)
    qed
  qed
qed

theorem main_empty_batch_witness:
  "rows empty_frame = []
   \<and> main example_library ''eluniversal_2022.csv'' empty_frame = Inl ValueError"
proof -
  have r: "rows empty_frame = []" and c: "columns empty_frame = [''body'', ''title'', ''url'']"
    by (simp_all add: empty_frame_def read_frame_def)
  from main_empty_batch [of empty_frame example_library "''eluniversal_2022.csv''"] r c
  show ?thesis by simp
qed

section \<open>The uid\<close>

lemma length_md5_digest: "length (md5_digest bs) = 16"
proof -
  obtain a b c d where
    "foldl md5_block (0x67452301, 0xefcdab89, 0x98badcfe, 0x10325476) (chunks 64 (md5_pad bs))
       = (a, b, c, d)"
    by (rule prod_cases4)
  then show ?thesis by (simp add: md5_digest_def le_bytes_def)
qed

lemma hex_digit_in: "hex_digit n \<in> set ''0123456789abcdef''"
proof -
  have "n mod 16 < length ''0123456789abcdef''" by simp
  then show ?thesis unfolding hex_digit_def by (rule nth_mem)
qed

lemma hexdigest_shape:
  "length (hexdigest bs) = 2 * length bs \<and> set (hexdigest bs) \<subseteq> set ''0123456789abcdef''"
proof (induction bs)
  case Nil
  show ?case by (simp add: hexdigest_def)
next
  case (Cons b bs)
  have "hexdigest (b # bs) = [hex_digit (unat b div 16), hex_digit (unat b mod 16)] @ hexdigest bs"
    by (simp add: hexdigest_def)
  with Cons hex_digit_in [of "unat b div 16"] hex_digit_in [of "unat b mod 16"]
  show ?case by simp
qed

text \<open>
  C10. The uid of a row is the MD5 digest of the UTF-8 bytes of its url, written as 32
  lower-case hexadecimal digits (for the text abc: 900150983cd24fb0d6963f7d28e17f72).
  The uid stage makes it the index of the frame, named uid, and in the frame the step
  returns, which is the one saved, every row is still labelled with the uid of its url.
\<close>

theorem uid_is_md5_of_url:
  "(generate_uids_for_rows df = Inr out \<longrightarrow>
      index_name out = Some ''uid'' \<and> length (rows out) = length (rows df)
      \<and> (\<forall>i<length (rows df). \<exists>u.
            snd (rows df ! i) ''url'' = Str u
            \<and> fst (rows out ! i) = Str (hexdigest (md5_digest (str_encode u)))))
   \<and> (main lib filename df = Inr out' \<longrightarrow>
        index_name out' = Some ''uid''
        \<and> (\<forall>lr\<in>set (rows out'). \<exists>u.
              snd lr ''url'' = Str u \<and> fst lr = Str (hexdigest (md5_digest (str_encode u)))))
   \<and> length (hexdigest (md5_digest bs)) = 32
   \<and> set (hexdigest (md5_digest bs)) \<subseteq> set ''0123456789abcdef''
   \<and> hexdigest (md5_digest (str_encode ''abc'')) = ''900150983cd24fb0d6963f7d28e17f72''"
proof (intro conjI impI)
  assume ok: "generate_uids_for_rows df = Inr out"
  note g = generate_uids_for_rows_Inr [OF ok]
  from g show "index_name out = Some ''uid''" by blast
  from g show "length (rows out) = length (rows df)" by blast
  show "\<forall>i<length (rows df). \<exists>u.
            snd (rows df ! i) ''url'' = Str u
            \<and> fst (rows out ! i) = Str (hexdigest (md5_digest (str_encode u)))"
  proof (intro allI impI)
    fix i assume "i < length (rows df)"
    with g obtain u where "snd (rows df ! i) ''url'' = Str u"
      "rows out ! i = (Str (hexdigest (md5_digest (str_encode u))),
                    (snd (rows df ! i))(''uid'' := Str (hexdigest (md5_digest (str_encode u)))))"
      by blast
    then show "\<exists>u. snd (rows df ! i) ''url'' = Str u
            \<and> fst (rows out ! i) = Str (hexdigest (md5_digest (str_encode u)))"
      by simp
  qed
next
  assume ok: "main lib filename df = Inr out'"
  note m = main_Inr [OF ok]
  from m show "index_name out' = Some ''uid''" by blast
  from m show "\<forall>lr\<in>set (rows out'). \<exists>u.
              snd lr ''url'' = Str u \<and> fst lr = Str (hexdigest (md5_digest (str_encode u)))"
    by blast
next
  show "length (hexdigest (md5_digest bs)) = 32"
    using hexdigest_shape [of "md5_digest bs"] length_md5_digest [of bs] by simp
  show "set (hexdigest (md5_digest bs)) \<subseteq> set ''0123456789abcdef''"
    using hexdigest_shape [of "md5_digest bs"] by blast
  show "hexdigest (md5_digest (str_encode ''abc'')) = ''900150983cd24fb0d6963f7d28e17f72''"
    by (rule md5_abc)
qed

theorem uid_is_md5_of_url_witness:
  "\<exists>out. main example_library ''eluniversal_2022.csv'' sample_frame = Inr out
     \<and> index_name out = Some ''uid''
     \<and> list_all (\<lambda>lr. \<exists>u. snd lr ''url'' = Str u
                       \<and> fst lr = Str (hexdigest (md5_digest (str_encode u)))) (rows out)
     \<and> map fst (rows out) =
          [Str (hexdigest (md5_digest (str_encode ''https://n.test/a/hello-world''))),
           Str (hexdigest (md5_digest (str_encode ''no-host/story'')))]"
proof -
  from sample_run obtain out
    where out: "main example_library ''eluniversal_2022.csv'' sample_frame = Inr out"
      and l: "map fst (rows out) =
          [Str (hexdigest (md5_digest (str_encode ''https://n.test/a/hello-world''))),
           Str (hexdigest (md5_digest (str_encode ''no-host/story'')))]"
    by (elim exE conjE) (rule that)
  from uid_is_md5_of_url [of sample_frame out example_library "''eluniversal_2022.csv''" out] out
  have "index_name out = Some ''uid''"
    and "\<forall>lr\<in>set (rows out). \<exists>u.
              snd lr ''url'' = Str u \<and> fst lr = Str (hexdigest (md5_digest (str_encode u)))"
    by blast+
  with out l show ?thesis unfolding list_all_iff
    by (intro exI [of _ out] conjI)
qed

section \<open>Determinism\<close>

text \<open>
  C8. The uid depends on the url alone: two rows with the same url get the same uid,
  whatever frames they stand in and wherever, in the uid stage and in the frames two
  runs of the step return (whatever the file names and libraries of the runs). The
  step is a function of its input: two runs on the same frame give the same result.
\<close>

theorem assign_id_deterministic:
  "(generate_uids_for_rows df1 = Inr o1 \<and> generate_uids_for_rows df2 = Inr o2
      \<and> i < length (rows df1) \<and> j < length (rows df2)
      \<and> snd (rows df1 ! i) ''url'' = snd (rows df2 ! j) ''url''
    \<longrightarrow> fst (rows o1 ! i) = fst (rows o2 ! j))
   \<and> (main lib1 fn1 df1 = Inr out1 \<and> main lib2 fn2 df2 = Inr out2
        \<and> lr1 \<in> set (rows out1) \<and> lr2 \<in> set (rows out2) \<and> snd lr1 ''url'' = snd lr2 ''url''
      \<longrightarrow> fst lr1 = fst lr2)
   \<and> (df1 = df2 \<longrightarrow> main lib filename df1 = main lib filename df2)"
proof (intro conjI impI)
  assume a: "generate_uids_for_rows df1 = Inr o1 \<and> generate_uids_for_rows df2 = Inr o2
      \<and> i < length (rows df1) \<and> j < length (rows df2)
      \<and> snd (rows df1 ! i) ''url'' = snd (rows df2 ! j) ''url''"
  from a generate_uids_for_rows_Inr [of df1 o1] obtain u
    where u: "snd (rows df1 ! i) ''url'' = Str u"
      "rows o1 ! i = (Str (hexdigest (md5_digest (str_encode u))),
                    (snd (rows df1 ! i))(''uid'' := Str (hexdigest (md5_digest (str_encode u)))))"
    by blast
  from a generate_uids_for_rows_Inr [of df2 o2] obtain v
    where v: "snd (rows df2 ! j) ''url'' = Str v"
      "rows o2 ! j = (Str (hexdigest (md5_digest (str_encode v))),
                    (snd (rows df2 ! j))(''uid'' := Str (hexdigest (md5_digest (str_encode v)))))"
    by blast
  from a u v have "u = v" by simp
  with u v show "fst (rows o1 ! i) = fst (rows o2 ! j)" by simp
next
  assume a: "main lib1 fn1 df1 = Inr out1 \<and> main lib2 fn2 df2 = Inr out2
        \<and> lr1 \<in> set (rows out1) \<and> lr2 \<in> set (rows out2) \<and> snd lr1 ''url'' = snd lr2 ''url''"
  from a main_Inr [of lib1 fn1 df1 out1] obtain u
    where u: "snd lr1 ''url'' = Str u" "fst lr1 = Str (hexdigest (md5_digest (str_encode u)))"
    by blast
  from a main_Inr [of lib2 fn2 df2 out2] obtain v
    where v: "snd lr2 ''url'' = Str v" "fst lr2 = Str (hexdigest (md5_digest (str_encode v)))"
    by blast
  from a u v have "u = v" by simp
  with u v show "fst lr1 = fst lr2" by simp
next
  assume "df1 = df2"
  then show "main lib filename df1 = main lib filename df2" by simp
qed

theorem assign_id_deterministic_witness:
  "\<exists>out. main example_library ''eluniversal_2022.csv'' sample_frame = Inr out
     \<and> length (rows out) = 2
     \<and> list_all (\<lambda>lr1. list_all (\<lambda>lr2. snd lr1 ''url'' \<noteq> snd lr2 ''url'' \<or> fst lr1 = fst lr2)
                          (rows out)) (rows out)
     \<and> main example_library ''eluniversal_2022.csv'' sample_frame
         = main example_library ''eluniversal_2022.csv'' sample_frame"
proof -
  from sample_run obtain out
    where out: "main example_library ''eluniversal_2022.csv'' sample_frame = Inr out"
      and l: "map fst (rows out) =
          [Str (hexdigest (md5_digest (str_encode ''https://n.test/a/hello-world''))),
           Str (hexdigest (md5_digest (str_encode ''no-host/story'')))]"
    by (elim exE conjE) (rule that)
  from l have len: "length (rows out) = 2"
    using length_map [of fst "rows out"] by simp
  have "snd lr1 ''url'' \<noteq> snd lr2 ''url'' \<or> fst lr1 = fst lr2"
    if "lr1 \<in> set (rows out)" and "lr2 \<in> set (rows out)" for lr1 lr2
    using assign_id_deterministic [of sample_frame out sample_frame out 0 0
        example_library "''eluniversal_2022.csv''" out example_library "''eluniversal_2022.csv''"
        out lr1 lr2] out that
    by blast
  then have "list_all (\<lambda>lr1. list_all (\<lambda>lr2. snd lr1 ''url'' \<noteq> snd lr2 ''url'' \<or> fst lr1 = fst lr2)
                          (rows out)) (rows out)"
    unfolding list_all_iff by blast
  with out len show ?thesis
    by (intro exI [of _ out] conjI) simp_all
qed

section \<open>Urls without a host\<close>




end
